theory Spec2Isabelle
  imports Main "HOL-Library.List_Lexorder" "HOL-Library.Char_ord" "HOL-Library.Multiset"
begin

section \<open>Strings of the script\<close>

text \<open>
  The script \<open>src/metadata/createMetadata.py\<close> creates one Dataplex aspect type for
  each \<open>.json\<close> file of a directory. A Python \<open>str\<close> is modelled as a HOL
  \<open>string\<close>; a \<open>char\<close> stands for a code point below 256 (Latin-1). The order on
  strings (\<open>List_Lexorder\<close> over \<open>Char_ord\<close>) is the code point order Python's
  \<open>sorted\<close> uses. \<open>os.path\<close> is \<open>posixpath\<close>.
\<close>

definition is_slug_char :: "char \<Rightarrow> bool" where
  \<comment> \<open>the character class \<open>[a-z0-9]\<close> of the regular expression\<close>
  "is_slug_char c =
     (let n = (of_char c :: nat) in (97 \<le> n \<and> n \<le> 122) \<or> (48 \<le> n \<and> n \<le> 57))"

definition is_ascii_alnum :: "char \<Rightarrow> bool" where
  \<comment> \<open>\<open>[A-Za-z0-9]\<close>: the characters that are in \<open>[a-z0-9]\<close> once lowercased\<close>
  "is_ascii_alnum c =
     (let n = (of_char c :: nat)
      in (65 \<le> n \<and> n \<le> 90) \<or> (97 \<le> n \<and> n \<le> 122) \<or> (48 \<le> n \<and> n \<le> 57))"

definition lower_char :: "char \<Rightarrow> char" where
  \<comment> \<open>\<open>str.lower\<close> on one code point below 256: A-Z and the Latin-1 capitals
      U+00C0..U+00DE (U+00D7, the multiplication sign, apart) move up by 32. Code
      points from 256 on, a few of which lowercase into ASCII, are outside the model.\<close>
  "lower_char c =
     (let n = (of_char c :: nat)
      in if (65 \<le> n \<and> n \<le> 90) \<or> (192 \<le> n \<and> n \<le> 222 \<and> n \<noteq> 215)
         then char_of (n + 32) else c)"

definition lower :: "string \<Rightarrow> string" where
  "lower s = map lower_char s"

definition is_space :: "char \<Rightarrow> bool" where
  \<comment> \<open>\<open>str.isspace\<close> on one code point below 256\<close>
  "is_space c =
     (let n = (of_char c :: nat)
      in (9 \<le> n \<and> n \<le> 13) \<or> (28 \<le> n \<and> n \<le> 32) \<or> n = 133 \<or> n = 160)"

definition strip_chars :: "(char \<Rightarrow> bool) \<Rightarrow> string \<Rightarrow> string" where
  \<comment> \<open>\<open>str.strip\<close>: drop the leading and the trailing characters of the given class\<close>
  "strip_chars p s = rev (dropWhile p (rev (dropWhile p s)))"

definition strip :: "string \<Rightarrow> string" where
  \<comment> \<open>\<open>s.strip()\<close>\<close>
  "strip s = strip_chars is_space s"

definition strip_hyphens :: "string \<Rightarrow> string" where
  \<comment> \<open>\<open>s.strip('-')\<close>\<close>
  "strip_hyphens s = strip_chars (\<lambda>c. c = CHR ''-'') s"

fun universal_newlines :: "string \<Rightarrow> string" where
  \<comment> \<open>what a file opened with \<open>open(p, 'r')\<close> does to the characters it reads (the
      default \<open>newline=None\<close>): a carriage return with its line feed, and a carriage
      return alone, become one line feed\<close>
  "universal_newlines [] = []"
| "universal_newlines (c # d # cs) =
     (if c = CHR 0x0D \<and> d = CHR 0x0A then CHR 0x0A # universal_newlines cs
      else if c = CHR 0x0D then CHR 0x0A # universal_newlines (d # cs)
      else c # universal_newlines (d # cs))"
| "universal_newlines [c] = (if c = CHR 0x0D then [CHR 0x0A] else [c])"

definition endswith :: "string \<Rightarrow> string \<Rightarrow> bool" where
  \<comment> \<open>\<open>s.endswith(suffix)\<close>\<close>
  "endswith s suf = (length suf \<le> length s \<and> drop (length s - length suf) s = suf)"

function re_sub_non_slug :: "string \<Rightarrow> string" where
  \<comment> \<open>\<open>re.sub(r'[^a-z0-9]+', '-', s)\<close>: scanning from the left, a character of the class
      \<open>[a-z0-9]\<close> is copied; at any other character the greedy \<open>+\<close> consumes the whole run
      of such characters and one hyphen is written for it\<close>
  "re_sub_non_slug [] = []"
| "re_sub_non_slug (c # cs) =
     (if is_slug_char c then c # re_sub_non_slug cs
      else CHR ''-'' # re_sub_non_slug (dropWhile (\<lambda>d. \<not> is_slug_char d) cs))"
  by pat_completeness auto
termination
  by (relation "measure length") (auto simp: length_dropWhile_le less_Suc_eq_le)

definition rfind :: "string \<Rightarrow> char \<Rightarrow> int" where
  \<comment> \<open>\<open>p.rfind(c)\<close> for a one-character \<open>c\<close>: the highest index of \<open>c\<close>, or -1\<close>
  "rfind p c =
     (if c \<in> set p
      then int (length p) - 1 - int (length (takeWhile (\<lambda>x. x \<noteq> c) (rev p)))
      else - 1)"

function has_non_dot :: "string \<Rightarrow> nat \<Rightarrow> nat \<Rightarrow> bool" where
  \<comment> \<open>the \<open>while filenameIndex < dotIndex\<close> loop of \<open>genericpath._splitext\<close>: True when it
      returns from inside (a character other than the dot before the last dot)\<close>
  "has_non_dot p filenameIndex dotIndex =
     (if filenameIndex < dotIndex
      then (if p ! filenameIndex \<noteq> CHR ''.'' then True
            else has_non_dot p (filenameIndex + 1) dotIndex)
      else False)"
  by pat_completeness auto
termination
  by (relation "measure (\<lambda>(p, i, d). d - i)") auto

declare has_non_dot.simps [simp del]

definition splitext :: "string \<Rightarrow> string \<times> string" where
  \<comment> \<open>\<open>os.path.splitext\<close> of \<open>posixpath\<close>: \<open>genericpath._splitext(p, '/', None, '.')\<close>.
      The indices read by the loop lie below \<open>dotIndex\<close>, hence inside \<open>p\<close>.\<close>
  "splitext p =
     (let sepIndex = rfind p (CHR ''/'');
          dotIndex = rfind p (CHR ''.'')
      in if dotIndex > sepIndex \<and> has_non_dot p (nat (sepIndex + 1)) (nat dotIndex)
         then (take (nat dotIndex) p, drop (nat dotIndex) p)
         else (p, []))"

definition path_join :: "string \<Rightarrow> string \<Rightarrow> string" where
  \<comment> \<open>\<open>os.path.join(a, b)\<close> of \<open>posixpath\<close> with two arguments\<close>
  "path_join a b =
     (if b \<noteq> [] \<and> hd b = CHR ''/'' then b
      else if a = [] \<or> last a = CHR ''/'' then a @ b
      else a @ ''/'' @ b)"

function str_nat :: "nat \<Rightarrow> string" where
  \<comment> \<open>the decimal digits of a natural number, as an f-string writes them\<close>
  "str_nat n =
     (if n < 10 then [char_of (48 + n)]
      else str_nat (n div 10) @ [char_of (48 + n mod 10)])"
  by pat_completeness auto
termination
  by (relation "measure id") auto

declare str_nat.simps [simp del]

definition str_int :: "int \<Rightarrow> string" where
  "str_int i = (if i < 0 then CHR ''-'' # str_nat (nat (- i)) else str_nat (nat i))"

definition derive_resource_id :: "string \<Rightarrow> string" where
  \<comment> \<open>lines 125 to 127 of \<open>main\<close>: the stem by \<open>os.path.splitext\<close>, lowercased, the runs
      outside \<open>[a-z0-9]\<close> replaced by a hyphen, the hyphens at both ends removed\<close>
  "derive_resource_id filename =
     (let base_name = fst (splitext filename);
          resource_id = re_sub_non_slug (lower base_name)
      in strip_hyphens resource_id)"

section \<open>The slug as the specification words it\<close>

function maximal_runs :: "('a \<Rightarrow> bool) \<Rightarrow> 'a list \<Rightarrow> 'a list list" where
  \<comment> \<open>a list cut into its maximal runs of elements on which \<open>p\<close> has one value\<close>
  "maximal_runs p [] = []"
| "maximal_runs p (x # xs) =
     (x # takeWhile (\<lambda>y. p y = p x) xs) # maximal_runs p (dropWhile (\<lambda>y. p y = p x) xs)"
  by pat_completeness auto
termination
  by (relation "measure (\<lambda>(p, xs). length xs)") (auto simp: length_dropWhile_le less_Suc_eq_le)

definition spec_stem :: "string \<Rightarrow> string" where
  \<comment> \<open>the specification's stem: the name with the five characters of \<open>.json\<close> removed\<close>
  "spec_stem filename = take (length filename - 5) filename"

definition replace_runs :: "string \<Rightarrow> string" where
  \<comment> \<open>every maximal run of characters outside \<open>[a-z0-9]\<close> replaced by a single
      hyphen, the other runs kept\<close>
  "replace_runs s =
     concat (map (\<lambda>r. if is_slug_char (hd r) then r else ''-'')
                 (maximal_runs is_slug_char s))"

definition spec_slug :: "string \<Rightarrow> string" where
  \<comment> \<open>the specification's slug: lowercased, then the runs replaced\<close>
  "spec_slug s = replace_runs (lower s)"

section \<open>The environment of a run\<close>

text \<open>
  The script reads a directory and files, starts \<open>gcloud\<close> and \<open>curl\<close>, and prints. The
  environment is a record of answers:
  \<^item> \<open>isdir\<close> is \<open>os.path.isdir\<close>, which does not raise;
  \<^item> \<open>listdir\<close> is \<open>os.listdir\<close>: the names, or the exception raised;
  \<^item> \<open>open_read t p\<close> answers \<open>open(p, 'r')\<close> followed by \<open>f.read()\<close>: the contents of
    the file, its characters as stored (decoded, line ends untouched), or the
    exception raised; the string \<open>f.read()\<close> returns is \<open>universal_newlines\<close> of them;
  \<^item> \<open>run t cmd\<close> is \<open>subprocess.run(cmd, capture_output=True, text=True)\<close>: the
    completed process with its return code, or the exception raised when no return
    code exists (the program cannot be started, its output cannot be decoded).

  The answers to \<open>open\<close> and to \<open>subprocess.run\<close> may depend on the moment of the call,
  a clock \<open>t\<close> that counts these two kinds of call. An exception carries what \<open>str(e)\<close>
  gives; the three constructors are the classes the handlers of the script tell
  apart. An event records a call the script made, whatever the answer was.
\<close>

datatype exn =
    FileNotFoundError string
  | ValueError string
  | OtherException string

fun exn_str :: "exn \<Rightarrow> string" where
  "exn_str (FileNotFoundError m) = m"
| "exn_str (ValueError m) = m"
| "exn_str (OtherException m) = m"

datatype completed = CompletedProcess (returncode: int) (stdout: string) (stderr: string)

record world =
  isdir :: "string \<Rightarrow> bool"
  listdir :: "string \<Rightarrow> exn + string list"
  open_read :: "nat \<Rightarrow> string \<Rightarrow> exn + string"
  run :: "nat \<Rightarrow> string list \<Rightarrow> exn + completed"

datatype event =
    Print string
  | OpenRead string
  | Run "string list"

record args =
  args_project_id :: string
  args_location :: string
  args_definitions_dir :: string

type_synonym outcome = "event list \<times> nat \<times> exn option"

section \<open>create\_metadata\_resource\<close>

definition access_token_command :: "string list" where
  "access_token_command = [''gcloud'', ''auth'', ''print-access-token'']"

definition api_url_of :: "string \<Rightarrow> string \<Rightarrow> string \<Rightarrow> string \<Rightarrow> string" where
  \<comment> \<open>line 34, with \<open>id_param_name = "aspect_type_id"\<close>\<close>
  "api_url_of project_id location api_resource_type resource_id =
     ''https://dataplex.googleapis.com/v1/projects/'' @ project_id @ ''/locations/'' @ location
       @ ''/'' @ api_resource_type @ ''?'' @ ''aspect_type_id'' @ ''='' @ resource_id"

definition curl_command :: "string \<Rightarrow> string \<Rightarrow> string \<Rightarrow> string list" where
  \<comment> \<open>lines 55 to 63\<close>
  "curl_command api_url access_token definition =
     [''curl'', ''--silent'', ''--fail'', ''--location'', api_url,
      ''--header'', ''Content-Type: application/json'',
      ''--header'', ''Authorization: Bearer '' @ access_token,
      ''--data'', definition]"

definition curl_data_body :: "string \<Rightarrow> string option" where
  \<comment> \<open>what \<open>curl\<close> sends as the request body for the argument of \<open>--data\<close>, by its
      manual: the argument itself, unless it starts with \<open>@\<close>; then the rest names a
      file and \<open>curl\<close> sends what it reads there (\<open>None\<close>: not decided by the argument)\<close>
  "curl_data_body d = (if d \<noteq> [] \<and> hd d = CHR ''@'' then None else Some d)"

definition processing_msg :: "string \<Rightarrow> string \<Rightarrow> string \<Rightarrow> string" where
  "processing_msg definition_file_path api_resource_type resource_id =
     ''Processing '' @ [CHR 0x27] @ definition_file_path @ [CHR 0x27] @ '' for ''
       @ api_resource_type @ '' ID: '' @ [CHR 0x27] @ resource_id @ [CHR 0x27] @ ''...''"

definition empty_token_msg :: string where
  "empty_token_msg =
     ''Empty access token received from gcloud. Please ensure gcloud CLI is configured correctly.''"

definition token_failure_msgs :: "string \<Rightarrow> string list" where
  \<comment> \<open>lines 46 to 48\<close>
  "token_failure_msgs err =
     [''Error: Could not obtain Google Cloud access token.'',
      ''Please ensure gcloud CLI is installed and authenticated (e.g., `gcloud auth application-default login`).'',
      ''Stderr: '' @ err]"

definition success_msg :: "string \<Rightarrow> string \<Rightarrow> string" where
  "success_msg api_resource_type resource_id =
     ''Successfully created '' @ api_resource_type @ '' with ID: '' @ resource_id"

definition curl_failure_msgs ::
  "string \<Rightarrow> string \<Rightarrow> string \<Rightarrow> string \<Rightarrow> completed \<Rightarrow> string list" where
  \<comment> \<open>lines 71 to 77\<close>
  "curl_failure_msgs api_resource_type resource_id api_url definition_file_path cp =
     [[CHR 0x0A] @ ''--- ERROR Creating '' @ api_resource_type @ '' with ID: '' @ resource_id
        @ '' ---'',
      ''  API URL: '' @ api_url,
      ''  Definition File: '' @ definition_file_path,
      ''  Return Code: '' @ str_int (returncode cp),
      ''  Stdout: '' @ stdout cp,
      ''  Stderr: '' @ stderr cp,
      ''--------------------------------------------------'' @ [CHR 0x0A]]"

definition create_metadata_resource ::
  "world \<Rightarrow> nat \<Rightarrow> string \<Rightarrow> string \<Rightarrow> string \<Rightarrow> string \<Rightarrow> string \<Rightarrow> outcome" where
  \<comment> \<open>The result: what was printed and asked of the environment, in order; the clock
      afterwards; the exception that leaves the function, if one does. With
      \<open>check=True\<close> a return code other than 0 raises \<open>CalledProcessError\<close>, which both
      \<open>try\<close> blocks catch at once, so it is a branch here and no value of \<open>exn\<close>.\<close>
  "create_metadata_resource w t project_id location api_resource_type resource_id
       definition_file_path =
     (let ev0 = [Print (processing_msg definition_file_path api_resource_type resource_id),
                 OpenRead definition_file_path]
      in case open_read w t definition_file_path of
           Inl (FileNotFoundError m) \<Rightarrow>
             (ev0 @ [Print (''Error: Definition file not found: '' @ definition_file_path)],
              t + 1, None)
         | Inl e \<Rightarrow>
             (ev0 @ [Print (''Error reading file '' @ definition_file_path @ '': '' @ exn_str e)],
              t + 1, None)
         | Inr contents \<Rightarrow>
             (let definition = universal_newlines contents;
                  api_url = api_url_of project_id location api_resource_type resource_id;
                  ev1 = ev0 @ [Run access_token_command]
              in case run w (t + 1) access_token_command of
                   Inl (ValueError m) \<Rightarrow>
                     (ev1 @ [Print (''Error obtaining access token: '' @ m)], t + 2, None)
                 | Inl e \<Rightarrow> (ev1, t + 2, Some e)
                 | Inr access_token_process \<Rightarrow>
                     if returncode access_token_process \<noteq> 0
                     then (ev1 @ map Print (token_failure_msgs (stderr access_token_process)),
                           t + 2, None)
                     else
                       (let access_token = strip (stdout access_token_process)
                        in if access_token = []
                           then (ev1 @ [Print (''Error obtaining access token: '' @ empty_token_msg)],
                                 t + 2, None)
                           else
                             (let command = curl_command api_url access_token definition;
                                  ev2 = ev1 @ [Run command]
                              in case run w (t + 2) command of
                                   Inl e \<Rightarrow>
                                     (ev2 @ [Print (''An unexpected error occurred while calling curl for ''
                                                     @ resource_id @ '': '' @ exn_str e)],
                                      t + 3, None)
                                 | Inr result \<Rightarrow>
                                     if returncode result \<noteq> 0
                                     then (ev2 @ map Print (curl_failure_msgs api_resource_type
                                                     resource_id api_url definition_file_path result),
                                           t + 3, None)
                                     else (ev2 @ [Print (success_msg api_resource_type resource_id),
                                                  Print (stdout result)],
                                           t + 3, None)))))"

section \<open>main\<close>

definition json_files :: "string list \<Rightarrow> string list" where
  \<comment> \<open>line 113\<close>
  "json_files names = filter (\<lambda>f. endswith f ''.json'') names"

definition skip_msg :: "string \<Rightarrow> string" where
  "skip_msg filename =
     ''Warning: Could not derive a valid resource ID from filename '' @ [CHR 0x27] @ filename
       @ [CHR 0x27] @ ''. Skipping this file.''"

definition process_file :: "world \<Rightarrow> nat \<Rightarrow> args \<Rightarrow> string \<Rightarrow> outcome" where
  \<comment> \<open>the body of the \<open>for\<close> loop, lines 125 to 142\<close>
  "process_file w t a filename =
     (let resource_id = derive_resource_id filename
      in if resource_id = [] then ([Print (skip_msg filename)], t, None)
         else create_metadata_resource w t (args_project_id a) (args_location a) ''aspectTypes''
                resource_id (path_join (args_definitions_dir a) filename))"

fun process_files :: "world \<Rightarrow> nat \<Rightarrow> args \<Rightarrow> string list \<Rightarrow> outcome" where
  \<comment> \<open>the \<open>for\<close> loop: an exception leaving the body ends the loop\<close>
  "process_files w t a [] = ([], t, None)"
| "process_files w t a (filename # rest) =
     (case process_file w t a filename of
        (evs, t', Some e) \<Rightarrow> (evs, t', Some e)
      | (evs, t', None) \<Rightarrow>
          (case process_files w t' a rest of (evs', t'', r) \<Rightarrow> (evs @ evs', t'', r)))"

definition no_dir_msg :: "string \<Rightarrow> string" where
  "no_dir_msg d = ''Error: Definitions directory not found: '' @ [CHR 0x27] @ d @ [CHR 0x27]"

definition no_files_msg :: "string \<Rightarrow> string" where
  "no_files_msg d =
     ''No .json files found in '' @ [CHR 0x27] @ d @ [CHR 0x27]
       @ ''. Please ensure your definition files are present and end with ''
       @ [CHR 0x27] @ ''.json'' @ [CHR 0x27] @ ''. Exiting.''"

definition found_msg :: "nat \<Rightarrow> string \<Rightarrow> string" where
  "found_msg n d =
     ''Found '' @ str_nat n @ '' JSON definition file(s) in '' @ [CHR 0x27] @ d @ [CHR 0x27] @ ''.''"

definition main :: "world \<Rightarrow> args \<Rightarrow> event list \<times> exn option" where
  \<comment> \<open>\<open>main\<close> after \<open>parse_args\<close>: what the run prints and asks of the environment, and the
      exception that leaves \<open>main\<close>, if one does. \<open>os.path.isdir\<close> does not raise;
      \<open>os.listdir\<close> may, and nothing catches it.\<close>
  "main w a =
     (if \<not> isdir w (args_definitions_dir a) then ([Print (no_dir_msg (args_definitions_dir a))], None)
      else case listdir w (args_definitions_dir a) of
             Inl e \<Rightarrow> ([], Some e)
           | Inr names \<Rightarrow>
               (let files = json_files names
                in if files = [] then ([Print (no_files_msg (args_definitions_dir a))], None)
                   else (case process_files w 0 a (sort files) of
                           (evs, t, r) \<Rightarrow>
                             (Print (found_msg (length files) (args_definitions_dir a)) # evs, r))))"

section \<open>Reading a trace\<close>

fun is_post :: "event \<Rightarrow> bool" where
  \<comment> \<open>the event is a start of \<open>curl\<close>, the HTTP create request\<close>
  "is_post (Run c) = (c \<noteq> [] \<and> hd c = ''curl'')"
| "is_post _ = False"

fun is_token_fetch :: "event \<Rightarrow> bool" where
  \<comment> \<open>the event is a start of \<open>gcloud auth print-access-token\<close>\<close>
  "is_token_fetch (Run c) = (c = access_token_command)"
| "is_token_fetch _ = False"

fun is_print :: "event \<Rightarrow> bool" where
  "is_print (Print m) = True"
| "is_print _ = False"

fun reads :: "event list \<Rightarrow> string list" where
  \<comment> \<open>the paths opened, in order\<close>
  "reads [] = []"
| "reads (OpenRead p # evs) = p # reads evs"
| "reads (e # evs) = reads evs"

section \<open>Example runs\<close>

definition example_args :: args where
  "example_args =
     \<lparr>args_project_id = ''my-project'', args_location = ''global'',
      args_definitions_dir = ''defs''\<rparr>"

definition example_world :: world where
  \<comment> \<open>a directory of four entries whose files read as \<open>{}\<close>; \<open>gcloud\<close> prints a token
      and a newline; \<open>curl\<close> exits with 0\<close>
  "example_world =
     \<lparr>isdir = (\<lambda>d. True),
      listdir = (\<lambda>d. Inr [''b.json'', ''notes.txt'', ''___.json'', ''a.json'']),
      open_read = (\<lambda>t p. Inr ''{}''),
      run = (\<lambda>t c. if c = access_token_command
                     then Inr (CompletedProcess 0 (''ya29.token'' @ [CHR 0x0A]) [])
                     else Inr (CompletedProcess 0 ''{}'' []))\<rparr>"

definition crlf_world :: world where
  \<comment> \<open>the same directory with files of two lines, \<open>{\<close> and \<open>}\<close>, the first ended by a
      carriage return and a line feed\<close>
  "crlf_world = example_world\<lparr>open_read := (\<lambda>t p. Inr (''{'' @ [CHR 0x0D, CHR 0x0A] @ ''}''))\<rparr>"

definition gcloud_not_found :: exn where
  \<comment> \<open>what \<open>subprocess.run\<close> raises when the program is not on the path\<close>
  "gcloud_not_found =
     FileNotFoundError (''[Errno 2] No such file or directory: '' @ [CHR 0x27] @ ''gcloud''
                          @ [CHR 0x27])"

definition gcloud_missing_world :: world where
  \<comment> \<open>the same directory on a machine without \<open>gcloud\<close>: \<open>subprocess.run\<close> raises
      \<open>FileNotFoundError\<close> for it\<close>
  "gcloud_missing_world =
     example_world\<lparr>run := (\<lambda>t c. if c = access_token_command
                     then Inl gcloud_not_found
                     else Inr (CompletedProcess 0 ''{}'' []))\<rparr>"

section \<open>The resource ID\<close>

lemma run_pred_True: "p x \<Longrightarrow> (\<lambda>y. p y = p x) = p"
  by auto

lemma run_pred_False: "\<not> p x \<Longrightarrow> (\<lambda>y. p y = p x) = (\<lambda>y. \<not> p y)"
  by auto

lemma replace_runs_Nil: "replace_runs [] = []"
  by (simp add: replace_runs_def)

lemma replace_runs_non_slug:
  "\<not> is_slug_char c \<Longrightarrow>
   replace_runs (c # cs) = CHR ''-'' # replace_runs (dropWhile (\<lambda>d. \<not> is_slug_char d) cs)"
  by (simp add: replace_runs_def run_pred_False)

lemma replace_runs_slug:
  assumes "is_slug_char c"
  shows "replace_runs (c # cs) = c # replace_runs cs"
proof (cases cs)
  case Nil
  with assms show ?thesis by (simp add: replace_runs_def)
next
  case (Cons d ds)
  show ?thesis
  proof (cases "is_slug_char d")
    case True
    with assms Cons show ?thesis by (simp add: replace_runs_def run_pred_True)
  next
    case False
    with assms Cons show ?thesis by (simp add: replace_runs_def run_pred_True run_pred_False)
  qed
qed

text \<open>The scan of \<open>re.sub\<close> and the replacement of maximal runs are one function.\<close>

lemma re_sub_non_slug_runs: "re_sub_non_slug s = replace_runs s"
  by (induction s rule: re_sub_non_slug.induct)
     (simp_all add: replace_runs_Nil replace_runs_non_slug replace_runs_slug)

lemma has_non_dot_iff:
  "has_non_dot p i d \<longleftrightarrow> (\<exists>j. i \<le> j \<and> j < d \<and> p ! j \<noteq> CHR ''.'')"
proof (induction p i d rule: has_non_dot.induct)
  case (1 p i d)
  show ?case
  proof (cases "i < d")
    case False
    then show ?thesis by (subst has_non_dot.simps) auto
  next
    case True
    show ?thesis
    proof (cases "p ! i \<noteq> CHR ''.''")
      case True
      with \<open>i < d\<close> show ?thesis by (subst has_non_dot.simps) auto
    next
      case False
      then have eq: "p ! i = CHR ''.''" by simp
      have "has_non_dot p i d = has_non_dot p (i + 1) d"
        using \<open>i < d\<close> eq by (subst has_non_dot.simps) simp
      also have "\<dots> \<longleftrightarrow> (\<exists>j. i + 1 \<le> j \<and> j < d \<and> p ! j \<noteq> CHR ''.'')"
        using "1.IH" \<open>i < d\<close> eq by simp
      also have "\<dots> \<longleftrightarrow> (\<exists>j. i \<le> j \<and> j < d \<and> p ! j \<noteq> CHR ''.'')"
      proof
        assume "\<exists>j. i + 1 \<le> j \<and> j < d \<and> p ! j \<noteq> CHR ''.''"
        then obtain j where "i + 1 \<le> j" "j < d" "p ! j \<noteq> CHR ''.''" by blast
        then show "\<exists>j. i \<le> j \<and> j < d \<and> p ! j \<noteq> CHR ''.''" by (intro exI[of _ j]) simp
      next
        assume "\<exists>j. i \<le> j \<and> j < d \<and> p ! j \<noteq> CHR ''.''"
        then obtain j where j: "i \<le> j" "j < d" "p ! j \<noteq> CHR ''.''" by blast
        with eq have "j \<noteq> i" by auto
        with j show "\<exists>j. i + 1 \<le> j \<and> j < d \<and> p ! j \<noteq> CHR ''.''" by (intro exI[of _ j]) simp
      qed
      finally show ?thesis .
    qed
  qed
qed

lemma endswith_iff: "endswith f suf \<longleftrightarrow> (\<exists>s. f = s @ suf)"
proof
  assume "endswith f suf"
  then have "f = take (length f - length suf) f @ suf"
    by (metis append_take_drop_id endswith_def)
  then show "\<exists>s. f = s @ suf" ..
next
  assume "\<exists>s. f = s @ suf"
  then show "endswith f suf" by (auto simp: endswith_def)
qed

lemma rfind_dot_json: "rfind (s @ ''.json'') (CHR ''.'') = int (length s)"
  by (simp add: rfind_def)

lemma rfind_absent: "c \<notin> set p \<Longrightarrow> rfind p c = - 1"
  by (simp add: rfind_def)

text \<open>
  \<open>os.path.splitext\<close> removes \<open>.json\<close> from a name without \<open>/\<close> when some character
  before the extension is not a dot.
\<close>

lemma splitext_json:
  assumes "CHR ''/'' \<notin> set s" and "\<exists>c\<in>set s. c \<noteq> CHR ''.''"
  shows "splitext (s @ ''.json'') = (s, ''.json'')"
proof -
  from assms(2) obtain j where j: "j < length s" "s ! j \<noteq> CHR ''.''"
    by (auto simp: in_set_conv_nth)
  then have "(s @ ''.json'') ! j \<noteq> CHR ''.''" by (simp add: nth_append)
  with j have nd: "has_non_dot (s @ ''.json'') 0 (length s)"
    unfolding has_non_dot_iff by blast
  have sep: "rfind (s @ ''.json'') (CHR ''/'') = - 1"
    using assms(1) by (intro rfind_absent) simp
  show ?thesis
    using nd by (simp add: splitext_def sep rfind_dot_json)
qed

lemma spec_stem_append: "spec_stem (s @ ''.json'') = s"
  by (simp add: spec_stem_def)

text \<open>
  Where every character before the extension is a dot, \<open>os.path.splitext\<close> takes the
  name for a hidden file without extension, and the stem is the whole name.
\<close>

lemma derive_resource_id_dot_names:
  "derive_resource_id ''.json'' = ''json'' \<and> derive_resource_id ''..json'' = ''json''"
  by code_simp

text \<open>
  C1, as the specification states it: the resource ID is the stem (the name without
  \<open>.json\<close>) lowercased, with every maximal run of characters outside \<open>[a-z0-9]\<close>
  replaced by one hyphen, and nothing more. The code differs: for \<open>_draft.json\<close> the
  specification's slug is \<open>-draft\<close>, and \<open>main\<close> derives \<open>draft\<close>, since line 127
  strips the hyphens at both ends.
\<close>

theorem slug_without_strip_counterexample:
  "endswith ''_draft.json'' ''.json'' \<and> derive_resource_id ''_draft.json'' = ''draft''
   \<and> spec_slug (spec_stem ''_draft.json'') = ''-draft''
   \<and> derive_resource_id ''_draft.json'' \<noteq> spec_slug (spec_stem ''_draft.json'')"
  by code_simp

text \<open>
  C1, amended: for every definition filename (a directory entry, so without \<open>/\<close>, that
  ends with \<open>.json\<close>) with a character other than the dot before the extension, the
  resource ID is the stem lowercased, with every maximal run of characters outside
  \<open>[a-z0-9]\<close> replaced by one hyphen, and with the leading and trailing hyphens then
  removed.
\<close>

theorem resource_id_is_stripped_slug:
  assumes "endswith filename ''.json''"
    and "CHR ''/'' \<notin> set filename"
    and "\<exists>c\<in>set (spec_stem filename). c \<noteq> CHR ''.''"
  shows "derive_resource_id filename = strip_hyphens (spec_slug (spec_stem filename))"
proof -
  from assms(1) obtain s where f: "filename = s @ ''.json''"
    unfolding endswith_iff by blast
  from assms(2) f have "CHR ''/'' \<notin> set s" by simp
  moreover from assms(3) f have "\<exists>c\<in>set s. c \<noteq> CHR ''.''" by (simp add: spec_stem_append)
  ultimately have "splitext filename = (s, ''.json'')" unfolding f by (rule splitext_json)
  then show ?thesis
    by (simp add: derive_resource_id_def f spec_stem_append spec_slug_def re_sub_non_slug_runs)
qed

theorem resource_id_is_stripped_slug_witness:
  "endswith ''My_Data Contract_.json'' ''.json''
   \<and> CHR ''/'' \<notin> set ''My_Data Contract_.json''
   \<and> derive_resource_id ''My_Data Contract_.json'' = ''my-data-contract''
   \<and> strip_hyphens (spec_slug (spec_stem ''My_Data Contract_.json'')) = ''my-data-contract''"
proof -
  have h1: "endswith ''My_Data Contract_.json'' ''.json''" by (simp add: endswith_def)
  have h2: "CHR ''/'' \<notin> set ''My_Data Contract_.json''" by simp
  have h3: "\<exists>c\<in>set (spec_stem ''My_Data Contract_.json''). c \<noteq> CHR ''.''"
    by (simp add: spec_stem_def)
  have v: "strip_hyphens (spec_slug (spec_stem ''My_Data Contract_.json'')) = ''my-data-contract''"
    by code_simp
  from resource_id_is_stripped_slug [OF h1 h2 h3] v h1 h2 show ?thesis by simp
qed

section \<open>Names that give no resource ID\<close>

lemma re_sub_non_slug_all_non_slug:
  assumes "\<forall>c\<in>set s. \<not> is_slug_char c"
  shows "re_sub_non_slug s = (if s = [] then [] else ''-'')"
proof (cases s)
  case Nil
  then show ?thesis by simp
next
  case (Cons c cs)
  with assms have n: "\<not> is_slug_char c"
    and d: "dropWhile (\<lambda>d. \<not> is_slug_char d) cs = []"
    by (auto simp: dropWhile_eq_Nil_conv)
  show ?thesis by (simp add: Cons n d del: dropWhile_eq_Nil_conv)
qed

text \<open>
  What lines 126 to 131 do by design: when the lowercased \<open>base_name\<close> has no
  character of \<open>[a-z0-9]\<close>, the resource ID is empty and the loop prints the warning
  and nothing else for the file.
\<close>

lemma derive_resource_id_empty:
  assumes "\<forall>c\<in>set (lower (fst (splitext filename))). \<not> is_slug_char c"
  shows "derive_resource_id filename = []"
proof -
  from assms have "re_sub_non_slug (lower (fst (splitext filename))) =
             (if lower (fst (splitext filename)) = [] then [] else ''-'')"
    by (rule re_sub_non_slug_all_non_slug)
  then show ?thesis
    by (simp add: derive_resource_id_def strip_hyphens_def strip_chars_def)
qed

lemma process_file_without_slug_char:
  assumes "\<forall>c\<in>set (lower (fst (splitext filename))). \<not> is_slug_char c"
  shows "process_file w t a filename = ([Print (skip_msg filename)], t, None)"
  using derive_resource_id_empty [OF assms] by (simp add: process_file_def)

text \<open>
  C3, at a failing input: the directory entry \<open>..json\<close> ends with \<open>.json\<close>, and its
  stem, the name without the extension, is the single dot, which is not
  alphanumeric. \<open>os.path.splitext\<close> takes the name for a hidden file without
  extension, so \<open>base_name\<close> is the whole name, the resource ID is \<open>json\<close>, and the
  file is not skipped: it is read, a token is fetched and the request is made.
\<close>

theorem dot_name_is_not_skipped:
  "endswith ''..json'' ''.json''
   \<and> spec_stem ''..json'' = ''.''
   \<and> \<not> is_ascii_alnum (CHR ''.'')
   \<and> fst (splitext ''..json'') = ''..json''
   \<and> derive_resource_id ''..json'' = ''json''
   \<and> process_file example_world 0 example_args ''..json'' =
       ([Print (processing_msg ''defs/..json'' ''aspectTypes'' ''json''),
         OpenRead ''defs/..json'',
         Run [''gcloud'', ''auth'', ''print-access-token''],
         Run [''curl'', ''--silent'', ''--fail'', ''--location'',
              ''https://dataplex.googleapis.com/v1/projects/my-project/locations/global/aspectTypes?aspect_type_id=json'',
              ''--header'', ''Content-Type: application/json'',
              ''--header'', ''Authorization: Bearer ya29.token'',
              ''--data'', ''{}''],
         Print ''Successfully created aspectTypes with ID: json'',
         Print ''{}''],
        3, None)"
  by code_simp

section \<open>The trace of one file\<close>

lemma filter_is_post_Print [simp]: "filter is_post (map Print ms) = []"
  by (induction ms) auto






lemma universal_newlines_no_cr: "CHR 0x0D \<notin> set s \<Longrightarrow> universal_newlines s = s"
  by (induction s rule: universal_newlines.induct) auto

lemma curl_data_body_plain: "take 1 d \<noteq> ''@'' \<longrightarrow> curl_data_body d = Some d"
  by (cases d) (auto simp: curl_data_body_def)

lemma process_files_single: "process_files w t a [f] = process_file w t a f"
  by (simp split: prod.splits option.splits)

lemma create_posts:
  assumes "create_metadata_resource w t p l ty rid path = (evs, t', r)"
  shows "filter is_post evs = [] \<or>
         (\<exists>d cp. open_read w t path = Inr d \<and> run w (t + 1) access_token_command = Inr cp
            \<and> returncode cp = 0 \<and> strip (stdout cp) \<noteq> []
            \<and> filter is_post evs =
                [Run (curl_command (api_url_of p l ty rid) (strip (stdout cp))
                       (universal_newlines d))])"
  using assms
  by (auto simp: create_metadata_resource_def Let_def access_token_command_def curl_command_def
      split: sum.splits exn.splits if_splits)


lemma process_file_posts:
  assumes "process_file w t a filename = (evs, t', r)"
  shows "filter is_post evs = [] \<or>
         (\<exists>d cp. open_read w t (path_join (args_definitions_dir a) filename) = Inr d
            \<and> run w (t + 1) access_token_command = Inr cp
            \<and> returncode cp = 0 \<and> strip (stdout cp) \<noteq> []
            \<and> filter is_post evs =
                [Run (curl_command
                       (api_url_of (args_project_id a) (args_location a) ''aspectTypes''
                          (derive_resource_id filename))
                       (strip (stdout cp)) (universal_newlines d))])"
proof (cases "derive_resource_id filename = []")
  case True
  with assms show ?thesis by (auto simp: process_file_def)
next
  case False
  with assms have "create_metadata_resource w t (args_project_id a) (args_location a)
      ''aspectTypes'' (derive_resource_id filename)
      (path_join (args_definitions_dir a) filename) = (evs, t', r)"
    by (simp add: process_file_def)
  then show ?thesis by (rule create_posts)
qed


lemma filter_token_Print [simp]: "filter is_token_fetch (map Print ms) = []"
  by (induction ms) auto

lemma filter_not_print_Print [simp]: "filter (\<lambda>e. \<not> is_print e) (map Print ms) = []"
  by (induction ms) auto

lemma curl_is_not_token_command [simp]: "curl_command u k d \<noteq> access_token_command"
  by (simp add: curl_command_def access_token_command_def)

lemma create_token_fetches:
  assumes "create_metadata_resource w t p l ty rid path = (evs, t', r)"
  shows "length (filter is_token_fetch evs) =
           (case open_read w t path of Inl e \<Rightarrow> 0 | Inr d \<Rightarrow> 1)"
  using assms
  by (auto simp: create_metadata_resource_def Let_def split: sum.splits exn.splits if_splits)

lemma create_shape:
  assumes "create_metadata_resource w t p l ty rid path = (evs, t', r)"
    and "filter is_post evs \<noteq> []"
  shows "\<exists>d cp. open_read w t path = Inr d \<and> run w (t + 1) access_token_command = Inr cp
           \<and> take 4 evs =
               [Print (processing_msg path ty rid), OpenRead path, Run access_token_command,
                Run (curl_command (api_url_of p l ty rid) (strip (stdout cp))
                      (universal_newlines d))]
           \<and> drop 4 evs \<noteq> [] \<and> filter (\<lambda>e. \<not> is_print e) (drop 4 evs) = []"
  using assms
  by (auto simp: create_metadata_resource_def Let_def access_token_command_def
        curl_failure_msgs_def
      split: sum.splits exn.splits if_splits)

lemma process_files_append:
  "process_files w t a (xs @ ys) =
     (case process_files w t a xs of
        (e1, t1, Some x) \<Rightarrow> (e1, t1, Some x)
      | (e1, t1, None) \<Rightarrow>
          (case process_files w t1 a ys of (e2, t2, r) \<Rightarrow> (e1 @ e2, t2, r)))"
proof (induction xs arbitrary: t)
  case Nil
  show ?case by (simp split: prod.splits)
next
  case (Cons f fs)
  obtain e1 t1 r1 where p1: "process_file w t a f = (e1, t1, r1)"
    by (cases "process_file w t a f") auto
  show ?case
  proof (cases r1)
    case (Some x)
    with p1 show ?thesis by simp
  next
    case None
    with p1 Cons.IH [of t1] show ?thesis
      by (simp split: prod.splits option.splits)
  qed
qed

lemma example_process_a:
  "process_file example_world 0 example_args ''a.json'' =
     ([Print (processing_msg ''defs/a.json'' ''aspectTypes'' ''a''),
       OpenRead ''defs/a.json'',
       Run [''gcloud'', ''auth'', ''print-access-token''],
       Run [''curl'', ''--silent'', ''--fail'', ''--location'',
            ''https://dataplex.googleapis.com/v1/projects/my-project/locations/global/aspectTypes?aspect_type_id=a'',
            ''--header'', ''Content-Type: application/json'',
            ''--header'', ''Authorization: Bearer ya29.token'',
            ''--data'', ''{}''],
       Print ''Successfully created aspectTypes with ID: a'',
       Print ''{}''],
      3, None)"
  by code_simp

lemma example_id_a: "derive_resource_id ''a.json'' = ''a''"
  by code_simp

lemma example_process_a_split:
  "process_file example_world 0 example_args ''a.json'' =
     (fst (process_file example_world 0 example_args ''a.json''),
      fst (snd (process_file example_world 0 example_args ''a.json'')),
      snd (snd (process_file example_world 0 example_args ''a.json'')))"
  by simp

lemma gcloud_missing_process_a_split:
  "process_file gcloud_missing_world 0 example_args ''a.json'' =
     (fst (process_file gcloud_missing_world 0 example_args ''a.json''),
      fst (snd (process_file gcloud_missing_world 0 example_args ''a.json'')),
      snd (snd (process_file gcloud_missing_world 0 example_args ''a.json'')))"
  by simp



text \<open>
  C6, as the specification states it: the request body is the entire contents of the
  definition file, unmodified. The code differs: the file is opened in text mode,
  so for a file holding \<open>{\<close>, a carriage return, a line feed and \<open>}\<close> the script hands
  \<open>curl\<close> the three characters \<open>{\<close>, line feed, \<open>}\<close>, and these are the body sent.
\<close>

theorem crlf_file_body_counterexample:
  "open_read crlf_world 0 (path_join (args_definitions_dir example_args) ''a.json'') =
     Inr (''{'' @ [CHR 0x0D, CHR 0x0A] @ ''}'')
   \<and> filter is_post (fst (process_file crlf_world 0 example_args ''a.json'')) =
       [Run [''curl'', ''--silent'', ''--fail'', ''--location'',
             ''https://dataplex.googleapis.com/v1/projects/my-project/locations/global/aspectTypes?aspect_type_id=a'',
             ''--header'', ''Content-Type: application/json'',
             ''--header'', ''Authorization: Bearer ya29.token'',
             ''--data'', ''{'' @ [CHR 0x0A] @ ''}'']]
   \<and> curl_data_body (''{'' @ [CHR 0x0A] @ ''}'') = Some (''{'' @ [CHR 0x0A] @ ''}'')
   \<and> ''{'' @ [CHR 0x0A] @ ''}'' \<noteq> ''{'' @ [CHR 0x0D, CHR 0x0A] @ ''}''"
  by code_simp

text \<open>
  C6, amended: whenever \<open>curl\<close> is started for a file, the argument of \<open>--data\<close> is
  the text of the definition file as the text-mode \<open>f.read()\<close> returns it: the entire
  contents with every carriage return and line feed pair, and every carriage return
  alone, turned into one line feed, and nothing else changed (the contents
  themselves when they hold no carriage return). \<open>curl\<close> sends this argument as the
  request body unless it starts with \<open>@\<close>.
\<close>

theorem post_data_is_text_of_file:
  assumes "process_file w t a filename = (evs, t', r)"
    and "Run command \<in> set evs" and "is_post (Run command)"
  shows "\<exists>api_url access_token contents.
           open_read w t (path_join (args_definitions_dir a) filename) = Inr contents
           \<and> command =
               [''curl'', ''--silent'', ''--fail'', ''--location'', api_url,
                ''--header'', ''Content-Type: application/json'',
                ''--header'', ''Authorization: Bearer '' @ access_token,
                ''--data'', universal_newlines contents]
           \<and> (CHR 0x0D \<notin> set contents \<longrightarrow> universal_newlines contents = contents)
           \<and> (take 1 (universal_newlines contents) \<noteq> ''@'' \<longrightarrow>
                curl_data_body (universal_newlines contents) =
                  Some (universal_newlines contents))"
proof -
  from assms(2,3) have m: "Run command \<in> set (filter is_post evs)" by simp
  from process_file_posts [OF assms(1)] show ?thesis
  proof
    assume e: "filter is_post evs = []"
    have False using m unfolding e by simp
    then show ?thesis ..
  next
    assume "\<exists>d cp. open_read w t (path_join (args_definitions_dir a) filename) = Inr d
            \<and> run w (t + 1) access_token_command = Inr cp
            \<and> returncode cp = 0 \<and> strip (stdout cp) \<noteq> []
            \<and> filter is_post evs =
                [Run (curl_command
                       (api_url_of (args_project_id a) (args_location a) ''aspectTypes''
                          (derive_resource_id filename))
                       (strip (stdout cp)) (universal_newlines d))]"
    then obtain d cp where d: "open_read w t (path_join (args_definitions_dir a) filename) = Inr d"
      and e: "filter is_post evs =
                [Run (curl_command
                       (api_url_of (args_project_id a) (args_location a) ''aspectTypes''
                          (derive_resource_id filename))
                       (strip (stdout cp)) (universal_newlines d))]"
      by blast
    have c: "command = curl_command
                       (api_url_of (args_project_id a) (args_location a) ''aspectTypes''
                          (derive_resource_id filename))
                       (strip (stdout cp)) (universal_newlines d)"
      using m unfolding e by simp
    have n: "CHR 0x0D \<notin> set d \<longrightarrow> universal_newlines d = d"
      by (simp add: universal_newlines_no_cr)
    have b: "take 1 (universal_newlines d) \<noteq> ''@'' \<longrightarrow>
               curl_data_body (universal_newlines d) = Some (universal_newlines d)"
      by (rule curl_data_body_plain)
    from d c n b show ?thesis unfolding curl_command_def by blast
  qed
qed

theorem post_data_is_text_of_file_witness:
  "Run (curl_command
         ''https://dataplex.googleapis.com/v1/projects/my-project/locations/global/aspectTypes?aspect_type_id=a''
         ''ya29.token'' (''{'' @ [CHR 0x0A] @ ''}''))
     \<in> set (fst (process_file crlf_world 0 example_args ''a.json''))
   \<and> (\<exists>api_url access_token contents.
         open_read crlf_world 0 (path_join (args_definitions_dir example_args) ''a.json'')
           = Inr contents
         \<and> curl_command
              ''https://dataplex.googleapis.com/v1/projects/my-project/locations/global/aspectTypes?aspect_type_id=a''
              ''ya29.token'' (''{'' @ [CHR 0x0A] @ ''}'') =
               [''curl'', ''--silent'', ''--fail'', ''--location'', api_url,
                ''--header'', ''Content-Type: application/json'',
                ''--header'', ''Authorization: Bearer '' @ access_token,
                ''--data'', universal_newlines contents])"
proof -
  have m: "Run (curl_command
         ''https://dataplex.googleapis.com/v1/projects/my-project/locations/global/aspectTypes?aspect_type_id=a''
         ''ya29.token'' (''{'' @ [CHR 0x0A] @ ''}''))
     \<in> set (fst (process_file crlf_world 0 example_args ''a.json''))"
    by code_simp
  have p: "is_post (Run (curl_command
         ''https://dataplex.googleapis.com/v1/projects/my-project/locations/global/aspectTypes?aspect_type_id=a''
         ''ya29.token'' (''{'' @ [CHR 0x0A] @ ''}'')))"
    by (simp add: curl_command_def)
  have c: "process_file crlf_world 0 example_args ''a.json'' =
             (fst (process_file crlf_world 0 example_args ''a.json''),
              fst (snd (process_file crlf_world 0 example_args ''a.json'')),
              snd (snd (process_file crlf_world 0 example_args ''a.json'')))"
    by simp
  from post_data_is_text_of_file [OF c m p] m show ?thesis by blast
qed

text \<open>
  C10: when the definition file cannot be opened or read, or starting \<open>gcloud\<close>
  raises, or \<open>gcloud\<close> exits with a return code other than 0, or the token is empty
  once stripped, no \<open>curl\<close> command is started for the file.
\<close>

theorem no_post_after_early_failure:
  assumes "process_file w t a filename = (evs, t', r)"
    and "(\<exists>e. open_read w t (path_join (args_definitions_dir a) filename) = Inl e)
         \<or> (\<exists>e. run w (t + 1) access_token_command = Inl e)
         \<or> (\<exists>cp. run w (t + 1) access_token_command = Inr cp
                  \<and> (returncode cp \<noteq> 0 \<or> strip (stdout cp) = []))"
  shows "filter is_post evs = []"
  using process_file_posts [OF assms(1)] assms(2) by auto

theorem no_post_after_early_failure_witness:
  "(\<exists>e. run gcloud_missing_world (0 + 1) access_token_command = Inl e)
   \<and> filter is_post (fst (process_file gcloud_missing_world 0 example_args ''a.json'')) = []
   \<and> reads (fst (process_file gcloud_missing_world 0 example_args ''a.json'')) = [''defs/a.json'']"
proof -
  have h: "\<exists>e. run gcloud_missing_world (0 + 1) access_token_command = Inl e"
    by (simp add: gcloud_missing_world_def)
  have r: "reads (fst (process_file gcloud_missing_world 0 example_args ''a.json'')) = [''defs/a.json'']"
    by code_simp
  from no_post_after_early_failure [OF gcloud_missing_process_a_split disjI2 [OF disjI1 [OF h]]] h r
  show ?thesis by blast
qed

text \<open>
  C8: the loop over no file does nothing; the loop over a list of files followed by
  one more file is the loop over the list and then, when no exception left it,
  \<open>process_file\<close> on that file, started at the clock the list ended with, its trace
  put after the trace of the list. So every file is processed, once, and a later
  file meets the environment only after everything asked and printed for the earlier
  ones; the same holds for a list followed by a list. A file whose definition was
  read starts \<open>gcloud\<close> once, a file that was skipped or not read never. When \<open>curl\<close>
  is started for a file, the trace of the file is the announcement, the read, the
  token fetch at this file's clock, the \<open>curl\<close> command carrying the token of this
  very fetch, and then prints only, at least one.
\<close>

theorem one_file_at_a_time_with_its_own_token:
  assumes "process_file w t a filename = (evs, t', r)"
  shows "process_files w start a [] = ([], start, None)
    \<and> process_files w start a (xs @ [next_file]) =
           (case process_files w start a xs of
              (e1, t1, Some x) \<Rightarrow> (e1, t1, Some x)
            | (e1, t1, None) \<Rightarrow>
                (case process_file w t1 a next_file of (e2, t2, r2) \<Rightarrow> (e1 @ e2, t2, r2)))
    \<and> process_files w start a (xs @ ys) =
           (case process_files w start a xs of
              (e1, t1, Some x) \<Rightarrow> (e1, t1, Some x)
            | (e1, t1, None) \<Rightarrow>
                (case process_files w t1 a ys of (e2, t2, r2) \<Rightarrow> (e1 @ e2, t2, r2)))
    \<and> length (filter is_token_fetch evs) =
         (if derive_resource_id filename = [] then 0
          else case open_read w t (path_join (args_definitions_dir a) filename) of
                 Inl e \<Rightarrow> 0 | Inr d \<Rightarrow> 1)
    \<and> (filter is_post evs \<noteq> [] \<longrightarrow>
         (\<exists>contents access_token_process.
            open_read w t (path_join (args_definitions_dir a) filename) = Inr contents
            \<and> run w (t + 1) access_token_command = Inr access_token_process
            \<and> take 4 evs =
                [Print (processing_msg (path_join (args_definitions_dir a) filename)
                          ''aspectTypes'' (derive_resource_id filename)),
                 OpenRead (path_join (args_definitions_dir a) filename),
                 Run access_token_command,
                 Run (curl_command
                        (api_url_of (args_project_id a) (args_location a) ''aspectTypes''
                           (derive_resource_id filename))
                        (strip (stdout access_token_process)) (universal_newlines contents))]
            \<and> drop 4 evs \<noteq> [] \<and> filter (\<lambda>e. \<not> is_print e) (drop 4 evs) = []))"
proof -
  have snoc: "process_files w start a (xs @ [next_file]) =
           (case process_files w start a xs of
              (e1, t1, Some x) \<Rightarrow> (e1, t1, Some x)
            | (e1, t1, None) \<Rightarrow>
                (case process_file w t1 a next_file of (e2, t2, r2) \<Rightarrow> (e1 @ e2, t2, r2)))"
    unfolding process_files_append [of w start a xs "[next_file]"] process_files_single ..
  show ?thesis
  proof (cases "derive_resource_id filename = []")
    case True
    with assms have "evs = [Print (skip_msg filename)]" by (auto simp: process_file_def)
    with True snoc show ?thesis by (simp add: process_files_append)
  next
    case False
    with assms have c: "create_metadata_resource w t (args_project_id a) (args_location a)
        ''aspectTypes'' (derive_resource_id filename)
        (path_join (args_definitions_dir a) filename) = (evs, t', r)"
      by (simp add: process_file_def)
    from create_token_fetches [OF c] create_shape [OF c] False snoc show ?thesis
      by (simp add: process_files_append)
  qed
qed

theorem one_file_at_a_time_with_its_own_token_witness:
  "filter is_post (fst (process_file example_world 0 example_args ''a.json'')) \<noteq> []
   \<and> length (filter is_token_fetch (fst (process_file example_world 0 example_args ''a.json''))) = 1
   \<and> take 4 (fst (process_file example_world 0 example_args ''a.json'')) =
       [Print (processing_msg ''defs/a.json'' ''aspectTypes'' ''a''),
        OpenRead ''defs/a.json'',
        Run access_token_command,
        Run (curl_command
         ''https://dataplex.googleapis.com/v1/projects/my-project/locations/global/aspectTypes?aspect_type_id=a''
         ''ya29.token'' ''{}'')]
   \<and> process_files example_world 0 example_args ([''___.json'', ''a.json''] @ [''b.json'']) =
       (case process_files example_world 0 example_args [''___.json'', ''a.json''] of
          (e1, t1, Some x) \<Rightarrow> (e1, t1, Some x)
        | (e1, t1, None) \<Rightarrow>
            (case process_file example_world t1 example_args ''b.json'' of
               (e2, t2, r2) \<Rightarrow> (e1 @ e2, t2, r2)))
   \<and> reads (fst (process_files example_world 0 example_args
                   ([''___.json'', ''a.json''] @ [''b.json'']))) =
       [''defs/a.json'', ''defs/b.json'']"
proof -
  have h: "filter is_post (fst (process_file example_world 0 example_args ''a.json'')) \<noteq> []"
    by (simp add: example_process_a)
  have t: "take 4 (fst (process_file example_world 0 example_args ''a.json'')) =
       [Print (processing_msg ''defs/a.json'' ''aspectTypes'' ''a''),
        OpenRead ''defs/a.json'',
        Run access_token_command,
        Run (curl_command
         ''https://dataplex.googleapis.com/v1/projects/my-project/locations/global/aspectTypes?aspect_type_id=a''
         ''ya29.token'' ''{}'')]"
    by (simp add: example_process_a access_token_command_def curl_command_def)
  have o: "open_read example_world 0 (path_join (args_definitions_dir example_args) ''a.json'')
             = Inr ''{}''"
    by (simp add: example_world_def)
  have rd: "reads (fst (process_files example_world 0 example_args
                   ([''___.json'', ''a.json''] @ [''b.json'']))) =
       [''defs/a.json'', ''defs/b.json'']"
    by code_simp
  from one_file_at_a_time_with_its_own_token
         [OF example_process_a_split,
          where xs = "[''___.json'', ''a.json'']" and next_file = "''b.json''"
            and start = 0 and ys = "[]"]
    h t o rd example_id_a
  show ?thesis by (simp del: process_files.simps)
qed

section \<open>The trace of a run\<close>

lemma reads_append: "reads (xs @ ys) = reads xs @ reads ys"
  by (induction xs rule: reads.induct) auto

lemma reads_Print_map [simp]: "reads (map Print ms) = []"
  by (induction ms) auto

lemma create_reads:
  assumes "create_metadata_resource w t p l ty rid path = (evs, t', r)"
  shows "reads evs = [path]"
  using assms
  by (auto simp: create_metadata_resource_def Let_def reads_append
      split: sum.splits exn.splits if_splits)

lemma process_file_reads:
  assumes "process_file w t a f = (evs, t', r)"
  shows "reads evs = (if derive_resource_id f = [] then [] else [path_join (args_definitions_dir a) f])"
proof (cases "derive_resource_id f = []")
  case True
  with assms show ?thesis by (auto simp: process_file_def)
next
  case False
  with assms have "create_metadata_resource w t (args_project_id a) (args_location a)
      ''aspectTypes'' (derive_resource_id f) (path_join (args_definitions_dir a) f) = (evs, t', r)"
    by (simp add: process_file_def)
  from create_reads [OF this] False show ?thesis by simp
qed

lemma process_files_reads:
  assumes "process_files w t a fs = (evs, t', r)"
  shows "\<exists>rest. reads evs @ rest =
           map (path_join (args_definitions_dir a)) (filter (\<lambda>f. derive_resource_id f \<noteq> []) fs)
         \<and> (r = None \<longrightarrow> rest = [])"
  using assms
proof (induction fs arbitrary: t evs t' r)
  case Nil
  then show ?case by simp
next
  case (Cons f fs)
  obtain e1 t1 r1 where p1: "process_file w t a f = (e1, t1, r1)"
    by (cases "process_file w t a f") auto
  note rd = process_file_reads [OF p1]
  show ?case
  proof (cases r1)
    case (Some x)
    with Cons.prems p1 have "evs = e1" "r = Some x" by auto
    with rd show ?thesis by auto
  next
    case None
    obtain e2 t2 r2 where p2: "process_files w t1 a fs = (e2, t2, r2)"
      by (cases "process_files w t1 a fs") auto
    with Cons.prems p1 None have ev: "evs = e1 @ e2" "r = r2" by auto
    from Cons.IH [OF p2] obtain rest where
      "reads e2 @ rest =
         map (path_join (args_definitions_dir a)) (filter (\<lambda>f. derive_resource_id f \<noteq> []) fs)"
      "r2 = None \<longrightarrow> rest = []" by blast
    with rd ev show ?thesis by (auto simp: reads_append)
  qed
qed

lemma create_metadata_resource_listdir [simp]:
  "create_metadata_resource (w\<lparr>listdir := l\<rparr>) t p lo ty rid path =
   create_metadata_resource w t p lo ty rid path"
  by (simp add: create_metadata_resource_def Let_def split: sum.splits exn.splits)

lemma process_file_listdir [simp]:
  "process_file (w\<lparr>listdir := l\<rparr>) t a f = process_file w t a f"
  by (simp add: process_file_def Let_def)

lemma process_files_listdir [simp]:
  "process_files (w\<lparr>listdir := l\<rparr>) t a fs = process_files w t a fs"
  by (induction fs arbitrary: t) simp_all

lemma json_files_idem: "json_files (json_files names) = json_files names"
  by (simp add: json_files_def)

lemma main_unfold:
  assumes "isdir w (args_definitions_dir a)" and "listdir w (args_definitions_dir a) = Inr names"
  shows "main w a =
     (if json_files names = [] then ([Print (no_files_msg (args_definitions_dir a))], None)
      else (case process_files w 0 a (sort (json_files names)) of
              (evs, t, r) \<Rightarrow>
                (Print (found_msg (length (json_files names)) (args_definitions_dir a)) # evs, r)))"
  using assms by (simp add: main_def Let_def)

lemma main_listdir_cong:
  assumes "mset names = mset names'"
  shows "main (w\<lparr>listdir := \<lambda>d. Inr names\<rparr>) a = main (w\<lparr>listdir := \<lambda>d. Inr names'\<rparr>) a"
proof -
  from assms have m: "mset (json_files names) = mset (json_files names')"
    by (simp add: json_files_def)
  then have "sort (json_files names) = sort (json_files names')"
    by (simp add: properties_for_sort)
  moreover from m have "length (json_files names) = length (json_files names')"
    by (rule mset_eq_length)
  moreover from m have "json_files names = [] \<longleftrightarrow> json_files names' = []"
    by (metis mset_zero_iff)
  ultimately show ?thesis by (simp add: main_def Let_def)
qed

lemma main_listdir_const:
  assumes "isdir w (args_definitions_dir a)" and "listdir w (args_definitions_dir a) = Inr names"
  shows "main (w\<lparr>listdir := \<lambda>d. Inr names\<rparr>) a = main w a"
  using assms by (simp add: main_def Let_def)

lemma example_listing:
  "listdir example_world (args_definitions_dir example_args) =
     Inr [''b.json'', ''notes.txt'', ''___.json'', ''a.json'']"
  by (simp add: example_world_def)

lemma example_isdir: "isdir example_world (args_definitions_dir example_args)"
  by (simp add: example_world_def)

lemma example_json_files:
  "json_files [''b.json'', ''notes.txt'', ''___.json'', ''a.json''] =
     [''b.json'', ''___.json'', ''a.json'']"
  by code_simp

lemma example_sorted_files:
  "sort (json_files [''b.json'', ''notes.txt'', ''___.json'', ''a.json'']) =
     [''___.json'', ''a.json'', ''b.json'']"
  by code_simp

lemma example_main_reads:
  "reads (fst (main example_world example_args)) = [''defs/a.json'', ''defs/b.json'']"
  by code_simp

text \<open>
  C7: with the directory present and listed, the names handed to the loop are those
  of the listing that end with \<open>.json\<close>; the run is the one of a directory holding
  these entries only; with no such entry the run prints one message and asks nothing
  of the environment, and otherwise it announces their number and loops over them
  sorted.
\<close>

theorem only_json_entries_are_processed:
  assumes "isdir w (args_definitions_dir a)" and "listdir w (args_definitions_dir a) = Inr names"
  shows "set (json_files names) = {f \<in> set names. \<exists>s. f = s @ ''.json''}
    \<and> main w a = main (w\<lparr>listdir := \<lambda>d. Inr (json_files names)\<rparr>) a
    \<and> main w a =
        (if json_files names = [] then ([Print (no_files_msg (args_definitions_dir a))], None)
         else (case process_files w 0 a (sort (json_files names)) of
                 (evs, t, r) \<Rightarrow>
                   (Print (found_msg (length (json_files names)) (args_definitions_dir a)) # evs,
                    r)))"
proof -
  have 1: "set (json_files names) = {f \<in> set names. \<exists>s. f = s @ ''.json''}"
    by (auto simp: json_files_def endswith_iff)
  have 3: "main w a =
        (if json_files names = [] then ([Print (no_files_msg (args_definitions_dir a))], None)
         else (case process_files w 0 a (sort (json_files names)) of
                 (evs, t, r) \<Rightarrow>
                   (Print (found_msg (length (json_files names)) (args_definitions_dir a)) # evs,
                    r)))"
    using assms by (rule main_unfold)
  have "main (w\<lparr>listdir := \<lambda>d. Inr (json_files names)\<rparr>) a =
        (if json_files (json_files names) = []
         then ([Print (no_files_msg (args_definitions_dir a))], None)
         else (case process_files (w\<lparr>listdir := \<lambda>d. Inr (json_files names)\<rparr>) 0 a
                      (sort (json_files (json_files names))) of
                 (evs, t, r) \<Rightarrow>
                   (Print (found_msg (length (json_files (json_files names)))
                            (args_definitions_dir a)) # evs, r)))"
    using assms(1) by (intro main_unfold) simp_all
  then have 2: "main w a = main (w\<lparr>listdir := \<lambda>d. Inr (json_files names)\<rparr>) a"
    using 3 by (simp add: json_files_idem)
  from 1 2 3 show ?thesis by blast
qed

theorem only_json_entries_are_processed_witness:
  "isdir example_world (args_definitions_dir example_args)
   \<and> json_files [''b.json'', ''notes.txt'', ''___.json'', ''a.json''] =
       [''b.json'', ''___.json'', ''a.json'']
   \<and> set (json_files [''b.json'', ''notes.txt'', ''___.json'', ''a.json'']) =
       {f \<in> set [''b.json'', ''notes.txt'', ''___.json'', ''a.json'']. \<exists>s. f = s @ ''.json''}
   \<and> main example_world example_args =
       main (example_world\<lparr>listdir := \<lambda>d. Inr [''b.json'', ''___.json'', ''a.json'']\<rparr>)
         example_args"
  using only_json_entries_are_processed [OF example_isdir example_listing] example_isdir
  by (simp add: example_json_files)

text \<open>
  C9: the loop runs over the selected names in ascending order (strings compared
  code point by code point, a proper prefix first): the files opened during the run
  are, in this order, the selected names with a non-empty resource ID, all of them
  when no exception leaves the run. A listing of the same entries in another order
  gives the same run.
\<close>

theorem files_processed_in_sorted_order:
  assumes "isdir w (args_definitions_dir a)" and "listdir w (args_definitions_dir a) = Inr names"
    and "main w a = (evs, r)" and "mset names' = mset names"
  shows "sorted (sort (json_files names))
    \<and> mset (sort (json_files names)) = mset (json_files names)
    \<and> (\<exists>rest. reads evs @ rest =
           map (path_join (args_definitions_dir a))
             (filter (\<lambda>f. derive_resource_id f \<noteq> []) (sort (json_files names)))
         \<and> (r = None \<longrightarrow> rest = []))
    \<and> main (w\<lparr>listdir := \<lambda>d. Inr names'\<rparr>) a = (evs, r)"
proof -
  have rd: "\<exists>rest. reads evs @ rest =
           map (path_join (args_definitions_dir a))
             (filter (\<lambda>f. derive_resource_id f \<noteq> []) (sort (json_files names)))
         \<and> (r = None \<longrightarrow> rest = [])"
  proof (cases "json_files names = []")
    case True
    with assms(1-3) show ?thesis by (auto simp: main_unfold)
  next
    case False
    obtain e t' r' where p: "process_files w 0 a (sort (json_files names)) = (e, t', r')"
      by (cases "process_files w 0 a (sort (json_files names))") auto
    with assms(1-3) False
    have "evs = Print (found_msg (length (json_files names)) (args_definitions_dir a)) # e"
      and "r = r'" by (simp_all add: main_unfold)
    with process_files_reads [OF p] show ?thesis by simp
  qed
  have "main (w\<lparr>listdir := \<lambda>d. Inr names'\<rparr>) a = main (w\<lparr>listdir := \<lambda>d. Inr names\<rparr>) a"
    using assms(4) by (intro main_listdir_cong) simp
  also have "\<dots> = main w a"
    using assms(1,2) by (rule main_listdir_const)
  finally show ?thesis using rd assms(3) by simp
qed

theorem files_processed_in_sorted_order_witness:
  "mset [''a.json'', ''___.json'', ''notes.txt'', ''b.json''] =
     mset [''b.json'', ''notes.txt'', ''___.json'', ''a.json'']
   \<and> sort (json_files [''b.json'', ''notes.txt'', ''___.json'', ''a.json'']) =
       [''___.json'', ''a.json'', ''b.json'']
   \<and> reads (fst (main example_world example_args)) = [''defs/a.json'', ''defs/b.json'']
   \<and> main (example_world\<lparr>listdir := \<lambda>d. Inr [''a.json'', ''___.json'', ''notes.txt'', ''b.json'']\<rparr>)
         example_args = main example_world example_args"
proof -
  have m: "mset [''a.json'', ''___.json'', ''notes.txt'', ''b.json''] =
           mset [''b.json'', ''notes.txt'', ''___.json'', ''a.json'']"
    by (simp add: add.commute add.left_commute)
  have c: "main example_world example_args =
           (fst (main example_world example_args), snd (main example_world example_args))"
    by simp
  from files_processed_in_sorted_order [OF example_isdir example_listing c m]
    m example_sorted_files example_main_reads
  show ?thesis by simp
qed

section \<open>Exceptions that leave the run\<close>

text \<open>
  An exception leaves \<open>create_metadata_resource\<close> in one case only: the file was
  read and \<open>subprocess.run\<close> raised, for \<open>gcloud\<close>, an exception that is no
  \<open>ValueError\<close> (a \<open>CalledProcessError\<close> is the branch of a return code other than
  0). Every error of the read and of \<open>curl\<close> ends in a print.
\<close>

lemma create_metadata_resource_raises:
  "snd (snd (create_metadata_resource w t p l ty rid path)) =
     (case open_read w t path of
        Inl e \<Rightarrow> None
      | Inr d \<Rightarrow>
          (case run w (t + 1) access_token_command of
             Inl (ValueError m) \<Rightarrow> None
           | Inl e \<Rightarrow> Some e
           | Inr cp \<Rightarrow> None))"
  by (simp add: create_metadata_resource_def Let_def split: sum.splits exn.splits)

text \<open>
  Hence an exception that leaves \<open>main\<close> was raised by \<open>os.listdir\<close> or by
  \<open>subprocess.run\<close> for \<open>gcloud\<close>.
\<close>

lemma process_file_raises:
  assumes "process_file w t a f = (evs, t', Some e)"
  shows "run w (t + 1) access_token_command = Inl e \<and> (\<forall>m. e \<noteq> ValueError m)"
proof -
  from assms have "snd (snd (process_file w t a f)) = Some e" by simp
  then show ?thesis
    by (auto simp: process_file_def Let_def create_metadata_resource_raises
        split: if_splits sum.splits exn.splits)
qed

lemma process_files_raises:
  assumes "process_files w t a fs = (evs, t', Some e)"
  shows "\<exists>k. run w k access_token_command = Inl e \<and> (\<forall>m. e \<noteq> ValueError m)"
  using assms
proof (induction fs arbitrary: t evs t')
  case Nil
  then show ?case by simp
next
  case (Cons f fs)
  obtain e1 t1 r1 where p1: "process_file w t a f = (e1, t1, r1)"
    by (cases "process_file w t a f") auto
  show ?case
  proof (cases r1)
    case (Some x)
    with Cons.prems p1 have "x = e" by simp
    with p1 Some process_file_raises [of w t a f e1 t1 e] show ?thesis by blast
  next
    case None
    obtain e2 t2 r2 where p2: "process_files w t1 a fs = (e2, t2, r2)"
      by (cases "process_files w t1 a fs") auto
    with Cons.prems p1 None have "r2 = Some e" by simp
    with p2 Cons.IH show ?thesis by blast
  qed
qed

lemma main_raises:
  assumes "main w a = (evs, Some e)"
  shows "listdir w (args_definitions_dir a) = Inl e
         \<or> (\<exists>k. run w k access_token_command = Inl e \<and> (\<forall>m. e \<noteq> ValueError m))"
proof (cases "listdir w (args_definitions_dir a)")
  case (Inl x)
  with assms show ?thesis by (simp add: main_def split: if_splits)
next
  case (Inr names)
  obtain e1 t1 r1 where p: "process_files w 0 a (sort (json_files names)) = (e1, t1, r1)"
    by (cases "process_files w 0 a (sort (json_files names))") auto
  with assms Inr have "r1 = Some e"
    by (simp add: main_def Let_def split: if_splits)
  with p have "process_files w 0 a (sort (json_files names)) = (e1, t1, Some e)" by simp
  from process_files_raises [OF this] show ?thesis by simp
qed

text \<open>
  C2, at a failing input: on a machine where \<open>gcloud\<close> cannot be started,
  \<open>subprocess.run\<close> raises \<open>FileNotFoundError\<close>; the handlers of lines 45 and 50
  take \<open>CalledProcessError\<close> and \<open>ValueError\<close> only, and the exception leaves
  \<open>main\<close>.
\<close>

theorem exception_leaves_main_when_gcloud_is_missing:
  "snd (main gcloud_missing_world example_args) =
     Some gcloud_not_found"
  by code_simp

text \<open>
  C4, at the same failing input: the exception raised while the token for
  \<open>a.json\<close> is fetched ends the loop, and \<open>b.json\<close>, which has a resource ID and comes
  next, is never opened.
\<close>

theorem loop_ends_when_gcloud_is_missing:
  "sort (json_files [''b.json'', ''notes.txt'', ''___.json'', ''a.json'']) =
     [''___.json'', ''a.json'', ''b.json'']
   \<and> derive_resource_id ''b.json'' = ''b''
   \<and> main gcloud_missing_world example_args =
       ([Print (found_msg 3 ''defs''),
         Print (skip_msg ''___.json''),
         Print (processing_msg ''defs/a.json'' ''aspectTypes'' ''a''),
         OpenRead ''defs/a.json'',
         Run [''gcloud'', ''auth'', ''print-access-token'']],
        Some gcloud_not_found)"
  by code_simp

end
